theory Spec2Isabelle
  imports Main
begin

section \<open>Reading a live chat aloud: \<^verbatim>\<open>youtube_say.py\<close>\<close>

text \<open>
  The script polls a chat session, prints every comment and hands a spoken form of it to
  the operating system's \<^verbatim>\<open>say\<close> command. A Python \<^verbatim>\<open>str\<close> is a sequence of
  code points; the model takes the code points U+0000 to U+00FF, one \<^typ>\<open>char\<close> each, so
  that \<^verbatim>\<open>len\<close> is \<^const>\<open>length\<close>. Calls into the outside world (standard output,
  \<^verbatim>\<open>pytchat\<close>, \<^verbatim>\<open>subprocess\<close>, \<^verbatim>\<open>time\<close>) are recorded, in order, in a log that every
  function takes and returns extended. The collaborators are taken to return normally.
\<close>

subsection \<open>Python string operations used by the script\<close>

text \<open>\<^verbatim>\<open>str.isspace\<close> on one code point below U+0100: TAB, LF, VT, FF, CR, FS, GS, RS, US,
  SPACE, NEL and NBSP.\<close>

definition isspace :: "char \<Rightarrow> bool" where
  "isspace c = (of_char c \<in> {9, 10, 11, 12, 13, 28, 29, 30, 31, 32, 133, 160 :: nat})"

text \<open>\<^verbatim>\<open>str.lower\<close> on one code point below U+0100: A to Z, and U+00C0 to U+00DE without the
  multiplication sign U+00D7, move up by 32.\<close>

definition lower_char :: "char \<Rightarrow> char" where
  "lower_char c =
     (let n = of_char c :: nat
      in if (65 \<le> n \<and> n \<le> 90) \<or> (192 \<le> n \<and> n \<le> 222 \<and> n \<noteq> 215)
         then char_of (n + 32) else c)"

definition lower :: "string \<Rightarrow> string" where
  "lower s = map lower_char s"

text \<open>\<^verbatim>\<open>s.strip()\<close>: leading and trailing whitespace removed.\<close>

definition strip :: "string \<Rightarrow> string" where
  "strip s = rev (dropWhile isspace (rev (dropWhile isspace s)))"

text \<open>\<^verbatim>\<open>s.lstrip(chars)\<close>: every leading character that occurs in \<open>chars\<close> is removed.\<close>

definition lstrip :: "string \<Rightarrow> string \<Rightarrow> string" where
  "lstrip chars s = dropWhile (\<lambda>c. c \<in> set chars) s"

text \<open>\<^verbatim>\<open>s.replace(old, new)\<close> for a one-character \<open>old\<close>, as at each call of the script:
  every occurrence of \<open>old\<close> becomes \<open>new\<close>.\<close>

fun replace :: "char \<Rightarrow> string \<Rightarrow> string \<Rightarrow> string" where
  "replace old new [] = []"
| "replace old new (c # cs) =
     (if c = old then new @ replace old new cs else c # replace old new cs)"

subsection \<open>The outside world\<close>

text \<open>One entry per call that leaves the program: \<open>Print s\<close> is \<^verbatim>\<open>print(s)\<close> (the text
  \<open>s\<close> and a line end on standard output), \<open>PytchatCreate v\<close> is
  \<^verbatim>\<open>pytchat.create(video_id=v)\<close>, \<open>IsAlive\<close> and \<open>Get\<close> are the two calls on the chat
  session, \<open>SubprocessRun argv\<close> is \<^verbatim>\<open>subprocess.run(argv)\<close> and \<open>Sleep ms\<close> is
  \<^verbatim>\<open>time.sleep\<close> with the time in milliseconds.\<close>

datatype event =
    Print string
  | PytchatCreate string
  | IsAlive
  | Get
  | SubprocessRun "string list"
  | Sleep nat

type_synonym log = "event list"

text \<open>A chat item as the script reads it: \<^verbatim>\<open>c.author.name\<close> and \<^verbatim>\<open>c.message\<close>.\<close>

record ChatMessage =
  author :: string
  message :: string

text \<open>What the chat session will answer: \<open>is_alive chat k\<close> is the result of the call
  \<^verbatim>\<open>chat.is_alive()\<close> at poll \<open>k\<close> (counted from 0), and \<open>sync_items chat k\<close> the
  items of \<^verbatim>\<open>chat.get().sync_items()\<close> at that poll.\<close>

record chat =
  is_alive :: "nat \<Rightarrow> bool"
  sync_items :: "nat \<Rightarrow> ChatMessage list"

text \<open>\<^verbatim>\<open>sys.exit(n)\<close> raises \<open>SystemExit n\<close>.\<close>

datatype error = SystemExit nat

subsection \<open>say\<close>

text \<open>The first statement of \<^verbatim>\<open>say\<close>, the value of \<^verbatim>\<open>clean\<close>.\<close>

definition clean :: "string \<Rightarrow> string" where
  "clean text =
     replace (CHR 0x0A) '' '' (replace (CHR 0x27) [] (replace (CHR 0x22) [] text))"

definition say :: "string \<Rightarrow> string \<Rightarrow> log \<Rightarrow> log" where
  "say text voice lg =
     (if strip (clean text) = [] \<or> 200 < length (clean text) then lg
      else lg @ [SubprocessRun [''say'', ''-v'', voice, clean text]])"

subsection \<open>Name normalization: \<^verbatim>\<open>friendly_name\<close>\<close>

definition normalized :: "string \<Rightarrow> string" where
  "normalized a = lstrip ''@'' (strip (lower a))"

definition friendly_name :: "string \<Rightarrow> string" where
  "friendly_name a =
     (if normalized a \<in> set [''nu11'', ''null''] then ''null'' else a)"

subsection \<open>main\<close>

text \<open>The body of the \<^verbatim>\<open>for\<close> loop, for one item, and the loop over a batch.\<close>

definition main_for_body :: "ChatMessage \<Rightarrow> log \<Rightarrow> log" where
  "main_for_body c lg =
     say (friendly_name (author c) @ '' says: '' @ message c) ''Samantha''
       (lg @ [Print (author c @ '': '' @ message c)])"

fun main_for :: "ChatMessage list \<Rightarrow> log \<Rightarrow> log" where
  "main_for [] lg = lg"
| "main_for (c # cs) lg = main_for cs (main_for_body c lg)"

text \<open>The \<^verbatim>\<open>while\<close> loop from poll \<open>k\<close> on. It need not end: \<open>None\<close> is a loop that
  runs forever.\<close>

partial_function (option) main_while :: "chat \<Rightarrow> nat \<Rightarrow> log \<Rightarrow> log option" where
  "main_while ch k lg =
     (if is_alive ch k
      then main_while ch (Suc k)
             (main_for (sync_items ch k) (lg @ [IsAlive, Get]) @ [Sleep 500])
      else Some (lg @ [IsAlive]))"

declare main_while.simps [code]

text \<open>\<^verbatim>\<open>main\<close>, given \<^verbatim>\<open>sys.argv\<close> and the session that \<^verbatim>\<open>pytchat.create\<close> returns
  for a video. The result is the log and either the exception that ended \<^verbatim>\<open>main\<close> or
  its normal return.\<close>

definition main :: "string list \<Rightarrow> (string \<Rightarrow> chat) \<Rightarrow> (log \<times> (error + unit)) option" where
  "main argv create =
     (if length argv < 2
      then Some ([Print ''Usage: python youtube_say.py VIDEO_ID'',
                  Print ''Example: python youtube_say.py dQw4w9WgXcQ''],
                 Inl (SystemExit 1))
      else
        let video_id = argv ! 1;
            lg = [Print (''Connecting to live chat for video: '' @ video_id),
                  PytchatCreate video_id,
                  Print (''Connected! Listening for comments...'' @ [CHR 0x0A])]
        in case main_while (create video_id) 0 lg of
             None \<Rightarrow> None
           | Some lg' \<Rightarrow> Some (lg' @ [Print ''Chat ended or stream offline.''], Inr ()))"

text \<open>The status of the process: \<^verbatim>\<open>main()\<close> is the last statement of the script, so
  a normal return ends the interpreter with status 0 and \<open>SystemExit n\<close> with \<open>n\<close>.\<close>

fun exit_status :: "error + unit \<Rightarrow> nat" where
  "exit_status (Inl (SystemExit n)) = n"
| "exit_status (Inr u) = 0"

subsection \<open>The rules in the specification's words\<close>

text \<open>The specification strips "a single leading @ if present" where \<open>normalized\<close>
  strips every leading one.\<close>

definition strip_single_at :: "string \<Rightarrow> string" where
  "strip_single_at s = (case s of [] \<Rightarrow> [] | c # cs \<Rightarrow> if c = CHR ''@'' then cs else s)"

definition spec_normalized :: "string \<Rightarrow> string" where
  "spec_normalized a = strip_single_at (strip (lower a))"

text \<open>The specification's sanitization removes double quotes, single quotes and
  newlines.\<close>

definition spec_clean :: "string \<Rightarrow> string" where
  "spec_clean text = filter (\<lambda>c. c \<notin> {CHR 0x22, CHR 0x27, CHR 0x0A}) text"

text \<open>The entries of a log that are lines on standard output.\<close>

fun is_print :: "event \<Rightarrow> bool" where
  "is_print (Print s) = True"
| "is_print e = False"

section \<open>Auxiliary facts\<close>

subsection \<open>Strings\<close>

lemmas py_str_defs =
  strip_def lower_def lower_char_def isspace_def lstrip_def char_of_def bit_0

lemma replace_empty: "replace old [] s = filter (\<lambda>c. c \<noteq> old) s"
  by (induction s) auto

lemma replace_single: "replace old [new] s = map (\<lambda>c. if c = old then new else c) s"
  by (induction s) auto

lemma clean_filter_map:
  "clean s =
     map (\<lambda>c. if c = CHR 0x0A then CHR '' '' else c)
       (filter (\<lambda>c. c \<noteq> CHR 0x22 \<and> c \<noteq> CHR 0x27) s)"
  by (simp add: clean_def replace_empty replace_single conj_commute)

lemma clean_set:
  "CHR 0x22 \<notin> set (clean s) \<and> CHR 0x27 \<notin> set (clean s) \<and> CHR 0x0A \<notin> set (clean s)"
  by (auto simp: clean_filter_map)

lemma clean_append: "clean (s @ t) = clean s @ clean t"
  by (simp add: clean_filter_map)

lemma strip_Nil_iff: "strip s = [] \<longleftrightarrow> (\<forall>c \<in> set s. isspace c)"
proof
  assume "strip s = []"
  then have all: "\<forall>c \<in> set (dropWhile isspace s). isspace c"
    by (simp add: strip_def)
  have "dropWhile isspace s = []"
  proof (rule ccontr)
    assume ne: "dropWhile isspace s \<noteq> []"
    then have "\<not> isspace (hd (dropWhile isspace s))"
      by (rule hd_dropWhile)
    with ne all show False
      by (metis list.set_sel(1))
  qed
  then show "\<forall>c \<in> set s. isspace c"
    by (simp add: dropWhile_eq_Nil_conv)
next
  assume "\<forall>c \<in> set s. isspace c"
  then show "strip s = []"
    by (auto simp: strip_def dest: set_dropWhileD)
qed

lemma length_strip: "length (strip s) \<le> length s"
proof -
  have "length (dropWhile isspace (rev (dropWhile isspace s))) \<le> length (rev (dropWhile isspace s))"
    by (rule length_dropWhile_le)
  then have "length (strip s) \<le> length (dropWhile isspace s)"
    by (simp add: strip_def)
  also have "\<dots> \<le> length s"
    by (rule length_dropWhile_le)
  finally show ?thesis .
qed

lemma strip_padded:
  assumes "\<not> isspace c"
  shows "strip (c # replicate n (CHR '' '')) = [c]"
proof -
  have "isspace (CHR '' '')"
    by (simp add: isspace_def)
  then have "dropWhile isspace (replicate n (CHR '' '') @ [c]) = dropWhile isspace [c]"
    by (intro dropWhile_append2) simp
  with assms show ?thesis
    by (simp add: strip_def)
qed

lemma length_spec_clean: "length (spec_clean s) \<le> length (clean s)"
proof -
  have "length (filter (\<lambda>c. c \<noteq> CHR 0x0A) (filter (\<lambda>c. c \<noteq> CHR 0x22 \<and> c \<noteq> CHR 0x27) s))
      \<le> length (filter (\<lambda>c. c \<noteq> CHR 0x22 \<and> c \<noteq> CHR 0x27) s)"
    by (rule length_filter_le)
  moreover have "spec_clean s =
      filter (\<lambda>c. c \<noteq> CHR 0x0A) (filter (\<lambda>c. c \<noteq> CHR 0x22 \<and> c \<noteq> CHR 0x27) s)"
    by (auto simp: spec_clean_def intro: filter_cong)
  ultimately show ?thesis
    by (simp only: clean_filter_map length_map)
qed

lemma spec_clean_blank:
  assumes "strip (spec_clean s) = []"
  shows "strip (clean s) = []"
proof -
  have sp: "isspace (CHR '' '')" "isspace (CHR 0x0A)"
    by (simp_all add: isspace_def)
  from assms have "\<forall>c \<in> set s. c \<notin> {CHR 0x22, CHR 0x27, CHR 0x0A} \<longrightarrow> isspace c"
    by (simp add: strip_Nil_iff spec_clean_def)
  with sp show ?thesis
    by (auto simp: strip_Nil_iff clean_filter_map)
qed

lemma normalized_unfold: "normalized a = dropWhile (\<lambda>c. c = CHR ''@'') (strip (lower a))"
  by (simp add: normalized_def lstrip_def)

lemma spec_normalized_null:
  assumes "spec_normalized a \<in> {''nu11'', ''null''}"
  shows "normalized a = spec_normalized a"
proof (cases "strip (lower a)")
  case Nil
  with assms show ?thesis
    by (simp add: spec_normalized_def strip_single_at_def)
next
  case (Cons c cs)
  with assms show ?thesis
    by (auto simp: spec_normalized_def strip_single_at_def normalized_unfold split: if_splits)
qed

subsection \<open>The loops\<close>

lemma say_no_print: "filter is_print (say t v []) = []"
  by (simp add: say_def)

lemma main_for_body_append:
  "main_for_body c lg =
     lg @ Print (author c @ '': '' @ message c) #
       say (friendly_name (author c) @ '' says: '' @ message c) ''Samantha'' []"
  by (simp add: main_for_body_def say_def)

lemma main_for_concat:
  "main_for cs lg =
     lg @ concat (map (\<lambda>c. Print (author c @ '': '' @ message c) #
       say (friendly_name (author c) @ '' says: '' @ message c) ''Samantha'' []) cs)"
proof (induction cs arbitrary: lg)
  case Nil
  show ?case by simp
next
  case (Cons c cs)
  have "main_for (c # cs) lg = main_for cs (main_for_body c lg)"
    by simp
  also have "\<dots> = main_for_body c lg @ concat (map (\<lambda>c. Print (author c @ '': '' @ message c) #
       say (friendly_name (author c) @ '' says: '' @ message c) ''Samantha'' []) cs)"
    by (rule Cons.IH)
  finally show ?case
    by (simp add: main_for_body_append [of c lg])
qed

lemma main_for_prints:
  "filter is_print (main_for cs lg) =
     filter is_print lg @ map (\<lambda>c. Print (author c @ '': '' @ message c)) cs"
proof (induction cs arbitrary: lg)
  case Nil
  show ?case by simp
next
  case (Cons c cs)
  have "filter is_print (main_for (c # cs) lg) = filter is_print (main_for cs (main_for_body c lg))"
    by simp
  also have "\<dots> = filter is_print (main_for_body c lg) @
      map (\<lambda>c. Print (author c @ '': '' @ message c)) cs"
    by (rule Cons.IH)
  finally show ?case
    by (simp add: main_for_body_append [of c lg] say_no_print)
qed

lemma long_body_silent:
  assumes "200 < length (filter (\<lambda>x. x \<noteq> CHR 0x22 \<and> x \<noteq> CHR 0x27) (message c))"
  shows "main_for [c] lg = lg @ [Print (author c @ '': '' @ message c)]"
proof -
  have "length (clean (message c)) \<le>
      length (clean (friendly_name (author c) @ '' says: '' @ message c))"
    by (simp only: clean_append length_append)
  moreover from assms have "200 < length (clean (message c))"
    by (simp add: clean_filter_map)
  ultimately have "say (friendly_name (author c) @ '' says: '' @ message c) ''Samantha'' [] = []"
    by (simp add: say_def)
  then show ?thesis
    by (simp add: main_for_body_append)
qed

lemma count_main_for: "count_list (main_for cs []) Get = 0"
  by (simp add: main_for_concat [of cs "[]"] say_def count_list_0_iff)

lemma main_while_ends:
  "\<not> is_alive ch (k + d) \<Longrightarrow> (\<forall>j. k \<le> j \<and> j < k + d \<longrightarrow> is_alive ch j) \<Longrightarrow>
   main_while ch k lg =
     Some (lg @ concat (map (\<lambda>j. [IsAlive, Get] @ main_for (sync_items ch j) [] @ [Sleep 500])
                         [k..<k + d]) @ [IsAlive])"
proof (induction d arbitrary: k lg)
  case 0
  then show ?case
    by (subst main_while.simps) simp
next
  case (Suc d)
  from Suc.prems have alive: "is_alive ch k"
    by simp
  from Suc.prems have dead: "\<not> is_alive ch (Suc k + d)"
    by simp
  from Suc.prems have rest: "\<forall>j. Suc k \<le> j \<and> j < Suc k + d \<longrightarrow> is_alive ch j"
    by simp
  have split: "[k..<k + Suc d] = k # [Suc k..<Suc k + d]"
    by (simp add: upt_conv_Cons)
  have step: "main_while ch k lg =
      main_while ch (Suc k) (main_for (sync_items ch k) (lg @ [IsAlive, Get]) @ [Sleep 500])"
    using alive by (subst main_while.simps) simp
  have app: "main_for (sync_items ch k) (lg @ [IsAlive, Get]) =
      lg @ [IsAlive, Get] @ main_for (sync_items ch k) []"
    by (simp add: main_for_concat [of _ "lg @ [IsAlive, Get]"] main_for_concat [of _ "[]"])
  show ?case
    unfolding step split Suc.IH [OF dead rest] app by simp
qed

section \<open>Name normalization\<close>

text \<open>C2, as the code has it: when the lowercased, whitespace-trimmed author name with
  every leading \<open>@\<close> removed is neither \<open>nu11\<close> nor \<open>null\<close>, \<open>friendly_name\<close> returns the
  author string unchanged. In particular \<open>@Foo\<close> is returned as \<open>@Foo\<close>.\<close>

theorem friendly_name_identity:
  "dropWhile (\<lambda>c. c = CHR ''@'') (strip (lower a)) \<notin> {''nu11'', ''null''}
   \<Longrightarrow> friendly_name a = a"
  by (simp add: friendly_name_def normalized_unfold)

theorem friendly_name_identity_witness:
  "dropWhile (\<lambda>c. c = CHR ''@'') (strip (lower ''@Foo'')) \<notin> {''nu11'', ''null''} \<and>
   friendly_name ''@Foo'' = ''@Foo''"
  using friendly_name_identity [of "''@Foo''"]
  by (simp add: py_str_defs)

text \<open>With only a single leading \<open>@\<close> removed the identity fails: \<open>@@null\<close> then
  normalizes to \<open>@null\<close>, which is neither of the two words, and \<open>friendly_name\<close> still
  answers \<open>null\<close>.\<close>

theorem friendly_name_single_at_counterexample:
  "spec_normalized ''@@null'' \<notin> {''nu11'', ''null''} \<and>
   friendly_name ''@@null'' = ''null'' \<and> friendly_name ''@@null'' \<noteq> ''@@null''"
  by (simp add: spec_normalized_def strip_single_at_def friendly_name_def normalized_def
      py_str_defs)

text \<open>C3: when the lowercased, whitespace-trimmed author name with its leading \<open>@\<close>
  stripped (all of them, as the code does, or a single one) is \<open>nu11\<close> or \<open>null\<close>,
  \<open>friendly_name\<close> returns exactly \<open>null\<close>.\<close>

theorem friendly_name_null:
  "normalized a \<in> {''nu11'', ''null''} \<or> spec_normalized a \<in> {''nu11'', ''null''}
   \<Longrightarrow> friendly_name a = ''null''"
  using spec_normalized_null [of a] by (auto simp: friendly_name_def)

text \<open>The author \<open>Nu11\<close> with the message \<open>hello world\<close>: the printed line keeps the
  name, the spoken text says \<open>null\<close>.\<close>

theorem friendly_name_null_witness:
  "(normalized ''Nu11'' \<in> {''nu11'', ''null''} \<or>
    spec_normalized ''Nu11'' \<in> {''nu11'', ''null''}) \<and>
   friendly_name ''Nu11'' = ''null'' \<and>
   main_for [\<lparr>author = ''Nu11'', message = ''hello world''\<rparr>] [] =
     [Print ''Nu11: hello world'',
      SubprocessRun [''say'', ''-v'', ''Samantha'', ''null says: hello world'']]"
  using friendly_name_null [of "''Nu11''"]
  by (simp add: normalized_def py_str_defs main_for_body_def say_def clean_def)

text \<open>C10: \<open>friendly_name\<close> is idempotent: normalizing a name that has been normalized
  changes nothing.\<close>

theorem friendly_name_idempotent:
  "friendly_name (friendly_name a) = friendly_name a"
proof (cases "normalized a \<in> set [''nu11'', ''null'']")
  case True
  have "normalized ''null'' = ''null''"
    by (simp add: normalized_def py_str_defs)
  with True show ?thesis
    by (simp add: friendly_name_def)
next
  case False
  then show ?thesis
    by (simp add: friendly_name_def)
qed

section \<open>Speech emission\<close>

text \<open>C4, as the code has it: the sanitization step of \<open>say\<close> removes every double quote
  and every single quote and replaces every newline by one space, and changes nothing
  else. So \<open>He said "hi"\<close> becomes \<open>He said hi\<close>.\<close>

theorem clean_removes_quotes_and_spaces_newlines:
  "clean s =
     map (\<lambda>c. if c = CHR 0x0A then CHR '' '' else c)
       (filter (\<lambda>c. c \<noteq> CHR 0x22 \<and> c \<noteq> CHR 0x27) s) \<and>
   clean (''He said '' @ [CHR 0x22] @ ''hi'' @ [CHR 0x22]) = ''He said hi''"
  by (simp add: clean_filter_map)

text \<open>A newline is not removed: between \<open>a\<close> and \<open>b\<close> it leaves a space.\<close>

theorem clean_newline_counterexample:
  "clean [CHR ''a'', CHR 0x0A, CHR ''b''] = ''a b'' \<and>
   spec_clean [CHR ''a'', CHR 0x0A, CHR ''b''] = ''ab'' \<and>
   clean [CHR ''a'', CHR 0x0A, CHR ''b''] \<noteq> spec_clean [CHR ''a'', CHR 0x0A, CHR ''b'']"
  by (simp add: clean_def spec_clean_def)

text \<open>C5: whenever \<open>say\<close> runs the speech command, the text it hands over contains no
  double quote, no single quote and no newline.\<close>

theorem say_no_quote_newline:
  "say s voice lg = lg @ es \<Longrightarrow> SubprocessRun argv \<in> set es \<Longrightarrow>
   \<exists>spoken. argv = [''say'', ''-v'', voice, spoken] \<and>
     CHR 0x22 \<notin> set spoken \<and> CHR 0x27 \<notin> set spoken \<and> CHR 0x0A \<notin> set spoken"
  using clean_set [of s] by (auto simp: say_def split: if_splits)

theorem say_no_quote_newline_witness:
  "say (''it'' @ [CHR 0x27] @ ''s'') ''Samantha'' [] =
     [] @ [SubprocessRun [''say'', ''-v'', ''Samantha'', ''its'']] \<and>
   SubprocessRun [''say'', ''-v'', ''Samantha'', ''its''] \<in>
     set [SubprocessRun [''say'', ''-v'', ''Samantha'', ''its'']] \<and>
   (\<exists>spoken. [''say'', ''-v'', ''Samantha'', ''its''] = [''say'', ''-v'', ''Samantha'', spoken] \<and>
     CHR 0x22 \<notin> set spoken \<and> CHR 0x27 \<notin> set spoken \<and> CHR 0x0A \<notin> set spoken)"
  using say_no_quote_newline [of "''it'' @ [CHR 0x27] @ ''s''" "''Samantha''" "[]"
      "[SubprocessRun [''say'', ''-v'', ''Samantha'', ''its'']]"
      "[''say'', ''-v'', ''Samantha'', ''its'']"]
  by (simp add: say_def clean_def py_str_defs)

text \<open>C6: when the sanitized text (quotes removed and newlines replaced as the code does,
  or all three removed) is empty after trimming, or its trimmed length exceeds 200, \<open>say\<close>
  runs no command and returns with the log as it was.\<close>

theorem say_discards:
  "strip (clean s) = [] \<or> 200 < length (strip (clean s)) \<or>
   strip (spec_clean s) = [] \<or> 200 < length (strip (spec_clean s))
   \<Longrightarrow> say s voice lg = lg"
  using length_strip [of "clean s"] length_strip [of "spec_clean s"]
    length_spec_clean [of s] spec_clean_blank [of s]
  by (auto simp: say_def)

theorem say_discards_witness:
  "(strip (clean [CHR 0x22, CHR 0x0A, CHR '' '']) = [] \<or>
    200 < length (strip (clean [CHR 0x22, CHR 0x0A, CHR '' ''])) \<or>
    strip (spec_clean [CHR 0x22, CHR 0x0A, CHR '' '']) = [] \<or>
    200 < length (strip (spec_clean [CHR 0x22, CHR 0x0A, CHR '' '']))) \<and>
   say [CHR 0x22, CHR 0x0A, CHR '' ''] ''Samantha'' [Print ''a: b''] = [Print ''a: b'']"
  using say_discards [of "[CHR 0x22, CHR 0x0A, CHR '' '']" "''Samantha''" "[Print ''a: b'']"]
  by (simp add: clean_def py_str_defs)

text \<open>C7, as the code has it: when the sanitized text is not empty after trimming and
  its length, untrimmed, is at most 200, \<open>say\<close> runs the speech command with the chosen
  voice and the sanitized text.\<close>

theorem say_invokes:
  "strip (clean s) \<noteq> [] \<Longrightarrow> length (clean s) \<le> 200 \<Longrightarrow>
   say s voice lg = lg @ [SubprocessRun [''say'', ''-v'', voice, clean s]]"
  by (simp add: say_def)

theorem say_invokes_witness:
  "strip (clean (''He said '' @ [CHR 0x22] @ ''hi'' @ [CHR 0x22])) \<noteq> [] \<and>
   length (clean (''He said '' @ [CHR 0x22] @ ''hi'' @ [CHR 0x22])) \<le> 200 \<and>
   say (''He said '' @ [CHR 0x22] @ ''hi'' @ [CHR 0x22]) ''Samantha'' [] =
     [SubprocessRun [''say'', ''-v'', ''Samantha'', ''He said hi'']]"
  using say_invokes [of "''He said '' @ [CHR 0x22] @ ''hi'' @ [CHR 0x22]" "''Samantha''" "[]"]
  by (simp add: clean_def py_str_defs)

text \<open>The length that \<open>say\<close> compares with 200 is the untrimmed one: the letter \<open>a\<close>
  followed by 200 spaces has the trimmed length 1 and is not spoken.\<close>

theorem say_trimmed_length_counterexample:
  "strip (clean (CHR ''a'' # replicate 200 CHR '' '')) \<noteq> [] \<and>
   length (strip (clean (CHR ''a'' # replicate 200 CHR '' ''))) \<le> 200 \<and>
   strip (spec_clean (CHR ''a'' # replicate 200 CHR '' '')) \<noteq> [] \<and>
   length (strip (spec_clean (CHR ''a'' # replicate 200 CHR '' ''))) \<le> 200 \<and>
   say (CHR ''a'' # replicate 200 CHR '' '') ''Samantha'' [] = []"
proof -
  have a: "\<not> isspace (CHR ''a'')"
    by (simp add: isspace_def)
  have c: "clean (CHR ''a'' # replicate 200 CHR '' '') = CHR ''a'' # replicate 200 CHR '' ''"
    by (simp add: clean_filter_map)
  have s: "spec_clean (CHR ''a'' # replicate 200 CHR '' '') = CHR ''a'' # replicate 200 CHR '' ''"
    by (simp add: spec_clean_def)
  show ?thesis
    by (simp add: c s strip_padded [OF a] say_def)
qed

section \<open>The relay loop\<close>

text \<open>C1: for the items of a batch, in their order, the loop first prints the line
  \<open>author: message\<close> with both parts as received and then passes
  \<open>friendly_name author says: message\<close> to \<open>say\<close>. The lines on standard output are one
  per item whatever \<open>say\<close> does: a message with more than 200 characters other than quotes
  (any 250 letters, say) is printed as it came and not spoken.\<close>

theorem main_for_prints_then_says:
  "main_for cs lg =
     lg @ concat (map (\<lambda>c. Print (author c @ '': '' @ message c) #
       say (friendly_name (author c) @ '' says: '' @ message c) ''Samantha'' []) cs) \<and>
   filter is_print (main_for cs lg) =
     filter is_print lg @ map (\<lambda>c. Print (author c @ '': '' @ message c)) cs \<and>
   (200 < length (filter (\<lambda>x. x \<noteq> CHR 0x22 \<and> x \<noteq> CHR 0x27) (message c)) \<longrightarrow>
      main_for [c] lg = lg @ [Print (author c @ '': '' @ message c)])"
  using main_for_concat [of cs lg] main_for_prints [of cs lg] long_body_silent [of c lg]
  by blast

theorem main_for_prints_then_says_witness:
  "200 < length (filter (\<lambda>x. x \<noteq> CHR 0x22 \<and> x \<noteq> CHR 0x27) (replicate 250 (CHR ''a''))) \<and>
   main_for [\<lparr>author = ''Bob'', message = replicate 250 (CHR ''a'')\<rparr>] [] =
     [Print (''Bob: '' @ replicate 250 (CHR ''a''))] \<and>
   main_for [\<lparr>author = ''@Foo'', message = ''hi''\<rparr>,
             \<lparr>author = ''Bob'', message = [CHR 0x22, CHR 0x22]\<rparr>] [] =
     [Print ''@Foo: hi'',
      SubprocessRun [''say'', ''-v'', ''Samantha'', ''@Foo says: hi''],
      Print (''Bob: '' @ [CHR 0x22, CHR 0x22]),
      SubprocessRun [''say'', ''-v'', ''Samantha'', ''Bob says: '']]"
  using main_for_prints_then_says [of
      "[\<lparr>author = ''@Foo'', message = ''hi''\<rparr>,
        \<lparr>author = ''Bob'', message = [CHR 0x22, CHR 0x22]\<rparr>]"
      "[]" "\<lparr>author = ''Bob'', message = replicate 250 (CHR ''a'')\<rparr>"]
  by (simp add: say_def clean_def friendly_name_def normalized_def py_str_defs)

text \<open>C8: started without the video identifier, the program prints exactly the two usage
  lines, exits with status 1 and never opens a chat session.\<close>

theorem main_usage:
  assumes "length argv < 2"
  shows "\<exists>lg r. main argv create = Some (lg, r) \<and>
     lg = [Print ''Usage: python youtube_say.py VIDEO_ID'',
           Print ''Example: python youtube_say.py dQw4w9WgXcQ''] \<and>
     r = Inl (SystemExit 1) \<and> exit_status r = 1 \<and>
     filter is_print lg = lg \<and> length lg = 2 \<and>
     (\<forall>v. PytchatCreate v \<notin> set lg) \<and> IsAlive \<notin> set lg \<and> Get \<notin> set lg"
  using assms by (simp add: main_def)

theorem main_usage_witness:
  "length [''youtube_say.py''] < 2 \<and>
   main [''youtube_say.py''] (\<lambda>v. \<lparr>is_alive = (\<lambda>k. True), sync_items = (\<lambda>k. [])\<rparr>) =
     Some ([Print ''Usage: python youtube_say.py VIDEO_ID'',
            Print ''Example: python youtube_say.py dQw4w9WgXcQ''], Inl (SystemExit 1))"
  using main_usage [of "[''youtube_say.py'']"
      "\<lambda>v. \<lparr>is_alive = (\<lambda>k. True), sync_items = (\<lambda>k. [])\<rparr>"]
  by simp

text \<open>C9: if the session answers not-alive at some poll, the loop ends at the first such
  poll \<open>m\<close>: the log holds \<open>m\<close> rounds of fetching, the last liveness call, and then the
  notice \<open>Chat ended or stream offline.\<close>; no batch is fetched after that call, and
  \<open>main\<close> returns normally, which is exit status 0.\<close>

theorem main_ends_when_not_alive:
  assumes argv: "2 \<le> length argv"
    and dead: "\<not> is_alive (create (argv ! 1)) n"
  shows "\<exists>m\<le>n. \<not> is_alive (create (argv ! 1)) m \<and>
     (\<forall>j<m. is_alive (create (argv ! 1)) j) \<and>
     (\<exists>lg. main argv create = Some (lg, Inr ()) \<and> exit_status (Inr ()) = 0 \<and>
        lg = [Print (''Connecting to live chat for video: '' @ argv ! 1),
              PytchatCreate (argv ! 1),
              Print (''Connected! Listening for comments...'' @ [CHR 0x0A])] @
             concat (map (\<lambda>j. [IsAlive, Get] @
                          main_for (sync_items (create (argv ! 1)) j) [] @ [Sleep 500]) [0..<m]) @
             [IsAlive, Print ''Chat ended or stream offline.''] \<and>
        count_list lg Get = m)"
proof -
  define ch where "ch = create (argv ! 1)"
  define m where "m = (LEAST j. \<not> is_alive ch j)"
  from dead have "\<not> is_alive ch n"
    by (simp add: ch_def)
  then have m_le: "m \<le> n" and m_dead: "\<not> is_alive ch m"
    unfolding m_def by (rule Least_le, rule LeastI)
  have m_first: "is_alive ch j" if "j < m" for j
    using that not_less_Least [of j "\<lambda>j. \<not> is_alive ch j"] unfolding m_def by blast
  have loop: "main_while ch 0 lg0 =
      Some (lg0 @ concat (map (\<lambda>j. [IsAlive, Get] @ main_for (sync_items ch j) [] @ [Sleep 500])
                           [0..<m]) @ [IsAlive])" for lg0
    using main_while_ends [of ch 0 m lg0] m_dead m_first by simp
  have count: "count_list (concat (map (\<lambda>j. [IsAlive, Get] @
      main_for (sync_items ch j) [] @ [Sleep 500]) [k..<k + d])) Get = d" for k d
    by (induction d arbitrary: k) (simp_all add: count_main_for)
  have count0: "count_list (concat (map (\<lambda>j. [IsAlive, Get] @
      main_for (sync_items ch j) [] @ [Sleep 500]) [0..<m])) Get = m"
    using count [of 0 m] by simp
  define lg0 where "lg0 = [Print (''Connecting to live chat for video: '' @ argv ! 1),
      PytchatCreate (argv ! 1),
      Print (''Connected! Listening for comments...'' @ [CHR 0x0A])]"
  define polls where "polls = concat (map (\<lambda>j. [IsAlive, Get] @
      main_for (sync_items ch j) [] @ [Sleep 500]) [0..<m])"
  have run: "main argv create =
      (case main_while ch 0 lg0 of None \<Rightarrow> None
       | Some lg' \<Rightarrow> Some (lg' @ [Print ''Chat ended or stream offline.''], Inr ()))"
    using argv by (simp add: main_def Let_def ch_def lg0_def)
  have "main argv create =
      Some ((lg0 @ polls @ [IsAlive]) @ [Print ''Chat ended or stream offline.''], Inr ())"
    by (simp only: run loop polls_def option.case)
  then have result: "main argv create =
      Some (lg0 @ polls @ [IsAlive, Print ''Chat ended or stream offline.''], Inr ())"
    by simp
  have "count_list (lg0 @ polls @ [IsAlive, Print ''Chat ended or stream offline.'']) Get = m"
    using count0 by (simp add: lg0_def polls_def)
  with result m_le m_dead m_first show ?thesis
    unfolding ch_def lg0_def polls_def by (intro exI [of _ m]) simp
qed

text \<open>A session that is alive at its first poll only, with one item in the batch.\<close>

theorem main_ends_when_not_alive_witness:
  "2 \<le> length [''youtube_say.py'', ''abc''] \<and>
   \<not> is_alive ((\<lambda>v. \<lparr>is_alive = (\<lambda>k. k < 1),
        sync_items = (\<lambda>k. [\<lparr>author = ''Nu11'', message = ''hello world''\<rparr>])\<rparr>)
      ([''youtube_say.py'', ''abc''] ! 1)) 3 \<and>
   main [''youtube_say.py'', ''abc'']
     (\<lambda>v. \<lparr>is_alive = (\<lambda>k. k < 1),
        sync_items = (\<lambda>k. [\<lparr>author = ''Nu11'', message = ''hello world''\<rparr>])\<rparr>) =
     Some ([Print ''Connecting to live chat for video: abc'', PytchatCreate ''abc'',
            Print (''Connected! Listening for comments...'' @ [CHR 0x0A]),
            IsAlive, Get, Print ''Nu11: hello world'',
            SubprocessRun [''say'', ''-v'', ''Samantha'', ''null says: hello world''],
            Sleep 500, IsAlive, Print ''Chat ended or stream offline.''], Inr ())"
proof -
  let ?argv = "[''youtube_say.py'', ''abc'']"
  let ?create = "\<lambda>v::string. \<lparr>is_alive = (\<lambda>k. k < 1),
        sync_items = (\<lambda>k. [\<lparr>author = ''Nu11'', message = ''hello world''\<rparr>])\<rparr>"
  have argv: "2 \<le> length ?argv"
    by simp
  have dead: "\<not> is_alive (?create (?argv ! 1)) 3"
    by simp
  from main_ends_when_not_alive [of ?argv ?create 3, OF argv dead]
  obtain m lg where m: "\<not> is_alive (?create (?argv ! 1)) m"
      "\<forall>j<m. is_alive (?create (?argv ! 1)) j"
    and lg: "main ?argv ?create = Some (lg, Inr ())"
      "lg = [Print (''Connecting to live chat for video: '' @ ?argv ! 1),
              PytchatCreate (?argv ! 1),
              Print (''Connected! Listening for comments...'' @ [CHR 0x0A])] @
             concat (map (\<lambda>j. [IsAlive, Get] @
                          main_for (sync_items (?create (?argv ! 1)) j) [] @ [Sleep 500]) [0..<m]) @
             [IsAlive, Print ''Chat ended or stream offline.'']"
    by blast
  from m have "m = 1"
    by (cases m) auto
  with lg argv dead show ?thesis
    by (simp add: main_for_body_def say_def clean_def friendly_name_def normalized_def py_str_defs)
qed

end
